theory Spec2Isabelle
  imports Main "HOL-Library.Multiset"
begin

section \<open>The trigger of a subscription: data model\<close>

text \<open>
  The development follows \<^verbatim>\<open>internal/trigger/trigger/trigger.go\<close>. Go's \<^verbatim>\<open>int\<close>
  counters and \<^verbatim>\<open>time.Duration\<close> values (nanoseconds) are integers; the only counter
  that is incremented, \<^verbatim>\<open>retryTimes\<close>, stays below \<^verbatim>\<open>MaxRetryTimes\<close>, so it never wraps.
\<close>

datatype TriggerState =
    TriggerCreated
  | TriggerPending
  | TriggerRunning
  | TriggerSleep
  | TriggerPaused
  | TriggerStopped
  | TriggerDestroyed

type_synonym Duration = int

text \<open>
  The fields of \<^verbatim>\<open>Config\<close> that the trigger reads. The declaration of the struct is
  not part of the sources at hand; the fields are the ones used in \<^verbatim>\<open>trigger.go\<close>.
\<close>

record Config =
  BufferSize :: int
  FilterProcessSize :: int
  SendProcessSize :: int
  MaxRetryTimes :: int
  RetryPeriod :: Duration
  SendTimeOut :: Duration

text \<open>
  Modelled from the spec: \<^verbatim>\<open>info.OffsetInfo\<close> is not among the sources. A position is ``a
  monotonic marker identifying an event's place in its source sequence'': a natural number.
\<close>

type_synonym OffsetInfo = nat

text \<open>
  \<^verbatim>\<open>info.EventRecord\<close>: the event and the position it was read from. The event is held
  through a pointer that the pipeline dereferences before anything else it does with the
  record; the model is about records whose pointer is valid, and holds the event itself.
\<close>

record 'e EventRecord =
  Event :: 'e
  OffsetInfo :: OffsetInfo

subsection \<open>Contexts\<close>

text \<open>
  Go's error values that occur here; \<open>None\<close> is nil. A \<^verbatim>\<open>context.Context\<close> is modelled
  as a callee sees it at the moment it looks: \<^verbatim>\<open>ctx.Err()\<close>, which is nil until the
  context is done, and the timeouts put on it with \<^verbatim>\<open>context.WithTimeout\<close>, innermost
  first. A context is cancelled by another goroutine, at any time; a sequential function
  that holds one gets it as a function of its own progress (see \<open>retry_loop\<close>).
\<close>

datatype go_error =
    ResultACK
  | ResultNACK
  | Canceled
  | DeadlineExceeded
  | Transport string

type_synonym error = "go_error option"

record Context =
  ctx_err :: error
  ctx_timeouts :: "Duration list"

definition ctx_done :: "Context \<Rightarrow> bool" where
  "ctx_done ctx = (ctx_err ctx \<noteq> None)"

definition Background :: Context where
  "Background = \<lparr>ctx_err = None, ctx_timeouts = []\<rparr>"

definition WithTimeout :: "Context \<Rightarrow> Duration \<Rightarrow> Context" where
  "WithTimeout ctx d = ctx\<lparr>ctx_timeouts := d # ctx_timeouts ctx\<rparr>"

subsection \<open>Results of the sink client\<close>

text \<open>
  The sink client is the CloudEvents SDK, a library outside the repository. Its \<^verbatim>\<open>Send\<close>
  returns an error value that \<^verbatim>\<open>ce.IsACK\<close> classifies: the nil result and \<^verbatim>\<open>ResultACK\<close> are
  acknowledgments (the SDK documents the nil result as one), everything else
  (\<^verbatim>\<open>ResultNACK\<close>, an expired or cancelled context, any transport error) is a rejection.
\<close>

fun IsACK :: "error \<Rightarrow> bool" where
  "IsACK None = True"
| "IsACK (Some ResultACK) = True"
| "IsACK (Some _) = False"

text \<open>
  The sink client as the retry loop meets it: the answer to the \<open>k\<close>-th call of one
  delivery (counted from 1), given the context and the event passed to it.
\<close>

type_synonym 'e sink = "nat \<Rightarrow> Context \<Rightarrow> 'e \<Rightarrow> error"

subsection \<open>Observable effects\<close>

text \<open>
  What a worker does to the outside, in the order it does it: calls of the sink client
  (with the result returned), pauses, log lines, and the two calls of the offset tracker.
\<close>

datatype 'e effect =
    SinkSend Context 'e error
  | Sleep Duration
  | LogDebug string
  | LogError string
  | LogInfo string
  | EventReceive OffsetInfo
  | EventCommit OffsetInfo

fun is_acked :: "'e effect \<Rightarrow> bool" where
  "is_acked (SinkSend _ _ r) = IsACK r"
| "is_acked _ = False"

fun is_sleep :: "'e effect \<Rightarrow> bool" where
  "is_sleep (Sleep _) = True"
| "is_sleep _ = False"

fun is_log_error :: "'e effect \<Rightarrow> bool" where
  "is_log_error (LogError _) = True"
| "is_log_error _ = False"

text \<open>The positions committed and the positions registered in a trace, in order.\<close>

fun commit_of :: "'e effect \<Rightarrow> OffsetInfo list" where
  "commit_of (EventCommit p) = [p]"
| "commit_of _ = []"

fun receive_of :: "'e effect \<Rightarrow> OffsetInfo list" where
  "receive_of (EventReceive p) = [p]"
| "receive_of _ = []"

definition commits :: "'e effect list \<Rightarrow> OffsetInfo list" where
  "commits tr = concat (map commit_of tr)"

definition receives :: "'e effect list \<Rightarrow> OffsetInfo list" where
  "receives tr = concat (map receive_of tr)"

text \<open>The calls of the sink client in a trace, in order: context, event, result.\<close>

fun send_of :: "'e effect \<Rightarrow> (Context \<times> 'e \<times> error) list" where
  "send_of (SinkSend c e r) = [(c, e, r)]"
| "send_of _ = []"

definition sends :: "'e effect list \<Rightarrow> (Context \<times> 'e \<times> error) list" where
  "sends tr = concat (map send_of tr)"

text \<open>
  A trace of attempts in which every rejected attempt is followed by its log line and a
  pause of \<open>d\<close>, the last attempt included, and an acknowledged attempt, with its log
  line, ends the trace.
\<close>

fun well_paused :: "Duration \<Rightarrow> 'e effect list \<Rightarrow> bool" where
  "well_paused d [] = True"
| "well_paused d (SinkSend c e r # LogDebug m # Sleep d' # tr) =
     (\<not> IsACK r \<and> d' = d \<and> well_paused d tr)"
| "well_paused d [SinkSend c e r, LogDebug m] = IsACK r"
| "well_paused d _ = False"

text \<open>
  The reading of the specification: pauses stand between two attempts only, so a trace
  of attempts does not end in a pause.
\<close>

definition no_pause_after_last :: "'e effect list \<Rightarrow> bool" where
  "no_pause_after_last tr = (tr = [] \<or> \<not> is_sleep (last tr))"

section \<open>The retry loop\<close>

text \<open>
  \<^verbatim>\<open>retrySendEvent\<close>, lines 93 to 116. The loop state is \<^verbatim>\<open>retryTimes\<close> and \<^verbatim>\<open>err\<close>.
  \<open>ctx k\<close> is the caller's context as it stands when attempt \<open>k\<close> starts: the loop hands
  it to \<^verbatim>\<open>context.WithTimeout\<close> and to the logger, and reads nothing else of it.
\<close>

function retry_loop ::
  "Config \<Rightarrow> 'e sink \<Rightarrow> (nat \<Rightarrow> Context) \<Rightarrow> 'e \<Rightarrow> int \<Rightarrow> error \<Rightarrow> 'e effect list \<times> error"
where
  "retry_loop cfg sink ctx e retryTimes err =
     (if retryTimes < MaxRetryTimes cfg then
        let k = nat (retryTimes + 1);
            timeout = WithTimeout (ctx k) (SendTimeOut cfg);
            err' = sink k timeout e
        in if \<not> IsACK err' then
             let (tr, r) = retry_loop cfg sink ctx e (retryTimes + 1) err'
             in (SinkSend timeout e err' # LogDebug ''process event error'' #
                 Sleep (RetryPeriod cfg) # tr, r)
           else ([SinkSend timeout e err', LogDebug ''send ce event success''], None)
      else ([], err))"
  by pat_completeness auto
termination
  by (relation "measure (\<lambda>(cfg, sink, ctx, e, retryTimes, err). nat (MaxRetryTimes cfg - retryTimes))")
     auto

definition retrySendEvent ::
  "Config \<Rightarrow> 'e sink \<Rightarrow> (nat \<Rightarrow> Context) \<Rightarrow> 'e \<Rightarrow> 'e effect list \<times> error"
where
  "retrySendEvent cfg sink ctx e = retry_loop cfg sink ctx e 0 None"

text \<open>
  The body of the loop of \<^verbatim>\<open>runEventSend\<close> for an event taken from the send queue,
  lines 146 to 153.
\<close>

definition send_event ::
  "Config \<Rightarrow> 'e sink \<Rightarrow> (nat \<Rightarrow> Context) \<Rightarrow> 'e EventRecord \<Rightarrow> 'e effect list"
where
  "send_event cfg sink ctx event =
     (let (tr, err) = retrySendEvent cfg sink ctx (Event event)
      in tr @ (if err \<noteq> None then [LogError ''send event to sink failed''] else [])
            @ [EventCommit (OffsetInfo event)])"

section \<open>The trigger\<close>

subsection \<open>Channels, panics, outcomes\<close>

text \<open>
  A buffered channel: what it holds (oldest first), its capacity, and whether it has been
  closed. \<^verbatim>\<open>make\<close> panics on a negative size. A send is ready when there is room, and
  also on a closed channel, where it panics; a receive yields the oldest element while
  there is one, and \<^verbatim>\<open>ok = false\<close> on a channel that is closed and empty.
\<close>

record 'a chan =
  buf :: "'a list"
  cap :: nat
  closed :: bool

datatype panic =
    NilDereference
  | NilFuncCall
  | MakeChanSize
  | SendOnClosed
  | CloseOfClosed

definition make_chan :: "int \<Rightarrow> panic + 'a chan" where
  "make_chan n = (if n < 0 then Inl MakeChanSize
                  else Inr \<lparr>buf = [], cap = nat n, closed = False\<rparr>)"

definition send_ready :: "'a chan \<Rightarrow> bool" where
  "send_ready c = (closed c \<or> length (buf c) < cap c)"

definition chan_send :: "'a \<Rightarrow> 'a chan \<Rightarrow> panic + 'a chan" where
  "chan_send x c = (if closed c then Inl SendOnClosed else Inr (c\<lparr>buf := buf c @ [x]\<rparr>))"

definition chan_close :: "'a chan \<Rightarrow> panic + 'a chan" where
  "chan_close c = (if closed c then Inl CloseOfClosed else Inr (c\<lparr>closed := True\<rparr>))"

text \<open>
  How a call ends: it returns, it panics, or it blocks for ever. Each carries what the
  call had done by then.
\<close>

datatype 'a outcome = Returns 'a | Panics panic 'a | Blocks 'a

fun after :: "'a outcome \<Rightarrow> 'a" where
  "after (Returns x) = x"
| "after (Panics _ x) = x"
| "after (Blocks x) = x"

subsection \<open>The Trigger struct\<close>

text \<open>
  Modelled from the spec: \<^verbatim>\<open>filter.FilterEvent\<close> and \<^verbatim>\<open>filter.GetFilter\<close> are not among the
  sources. The filter evaluator is ``a pure predicate over an event'' that ``returns
  pass/fail''; a compiled filter is that predicate, and evaluating it is applying it.
\<close>

datatype FilterResult = PassFilter | FailFilter

type_synonym 'e Filter = "'e \<Rightarrow> FilterResult"

definition FilterEvent :: "'e Filter \<Rightarrow> 'e \<Rightarrow> FilterResult" where
  "FilterEvent f e = f e"

type_synonym Time = int

text \<open>
  \<^verbatim>\<open>primitive.Subscription\<close>, the fields \<^verbatim>\<open>NewTrigger\<close> reads. \<open>'f\<close> is the type of the
  filter rules.
\<close>

record 'f Subscription =
  Subscription_ID :: string
  Sink :: string
  Filters :: 'f

text \<open>
  \<^verbatim>\<open>stop\<close> is the cancel function, nil (\<open>None\<close>) until \<^verbatim>\<open>Start\<close> stores one; \<open>cancelled\<close>
  says whether the context of the workers, which that function cancels, is done. \<open>wg\<close>
  counts the workers that have been started and have not returned. \<open>'m\<close> is the offset
  tracker.
\<close>

record ('e, 'm) Trigger =
  ID :: string
  SubscriptionID :: string
  Target :: string
  SleepDuration :: Duration
  state :: TriggerState
  lastActive :: Time
  offsetManager :: 'm
  stop :: "unit option"
  cancelled :: bool
  eventCh :: "'e EventRecord chan"
  sendCh :: "'e EventRecord chan"
  ceClient :: "'e sink option"
  filter' :: "'e Filter"
  config :: Config
  wg :: nat

definition emptyConfig :: Config where
  "emptyConfig = \<lparr>BufferSize = 0, FilterProcessSize = 0, SendProcessSize = 0,
     MaxRetryTimes = 0, RetryPeriod = 0, SendTimeOut = 0\<rparr>"

definition second :: Duration where
  "second = 1000000000"

text \<open>
  \<^verbatim>\<open>NewTrigger\<close>, lines 64 to 81. \<^verbatim>\<open>Config.initConfig\<close>, \<^verbatim>\<open>uuid.New\<close> and \<^verbatim>\<open>filter.GetFilter\<close>
  are not among the sources and are parameters: the defaulting of a configuration, the
  identifier drawn, and the compilation of the filter rules. The pointers \<^verbatim>\<open>config\<close> and
  \<^verbatim>\<open>sub\<close> may be nil. The fields of the struct literal are evaluated in the order they are
  written, so a nil \<^verbatim>\<open>sub\<close> panics before the channels are made.
\<close>

definition NewTrigger ::
  "(Config \<Rightarrow> Config) \<Rightarrow> string \<Rightarrow> ('f \<Rightarrow> 'e Filter) \<Rightarrow>
   Config option \<Rightarrow> 'f Subscription option \<Rightarrow> 'm \<Rightarrow> panic + ('e, 'm) Trigger"
where
  "NewTrigger initConfig uuid GetFilter config_ptr sub_ptr om =
     (let cfg = initConfig (case config_ptr of None \<Rightarrow> emptyConfig | Some c \<Rightarrow> c)
      in case sub_ptr of
           None \<Rightarrow> Inl NilDereference
         | Some sub \<Rightarrow>
             (case make_chan (BufferSize cfg) of
                Inl p \<Rightarrow> Inl p
              | Inr ch1 \<Rightarrow>
                  (case make_chan (BufferSize cfg) of
                     Inl p \<Rightarrow> Inl p
                   | Inr ch2 \<Rightarrow>
                       Inr \<lparr>ID = uuid,
                            SubscriptionID = Subscription_ID sub,
                            Target = Sink sub,
                            SleepDuration = 30 * second,
                            state = TriggerCreated,
                            lastActive = 0,
                            offsetManager = om,
                            stop = None,
                            cancelled = False,
                            eventCh = ch1,
                            sendCh = ch2,
                            ceClient = None,
                            filter' = GetFilter (Filters sub),
                            config = cfg,
                            wg = 0\<rparr>)))"

subsection \<open>Ingestion\<close>




subsection \<open>The filter stage\<close>

text \<open>
  The body of the loop of \<^verbatim>\<open>runEventProcess\<close> for an event taken from the intake queue,
  lines 128 to 132. The send into the send queue is not under a \<^verbatim>\<open>select\<close>: it blocks
  while the queue is full.
\<close>

definition process_event ::
  "'e EventRecord \<Rightarrow> ('e, 'm) Trigger \<Rightarrow>
   (('e, 'm) Trigger \<times> 'e effect list) outcome"
where
  "process_event event t =
     (if FilterEvent (filter' t) (Event event) = FailFilter then
        Returns (t, [EventCommit (OffsetInfo event)])
      else if \<not> send_ready (sendCh t) then Blocks (t, [])
      else (case chan_send event (sendCh t) of
              Inl p \<Rightarrow> Panics p (t, [])
            | Inr ch \<Rightarrow> Returns (t\<lparr>sendCh := ch\<rparr>, [])))"

subsection \<open>The idle watcher\<close>

text \<open>
  \<^verbatim>\<open>time.Time.Sub\<close> saturates at the bounds of \<^verbatim>\<open>time.Duration\<close>, a 64-bit count of
  nanoseconds.
\<close>

definition maxDuration :: Duration where
  "maxDuration = 2 ^ 63 - 1"

definition minDuration :: Duration where
  "minDuration = - (2 ^ 63)"

definition Sub :: "Time \<Rightarrow> Time \<Rightarrow> Duration" where
  "Sub t u = (let d = t - u
              in if d > maxDuration then maxDuration
                 else if d < minDuration then minDuration else d)"

text \<open>
  One tick of \<^verbatim>\<open>runSleepWatch\<close>, lines 166 to 174, at time \<open>now\<close>.
\<close>

definition sleep_watch_tick :: "Time \<Rightarrow> ('e, 'm) Trigger \<Rightarrow> ('e, 'm) Trigger" where
  "sleep_watch_tick now t =
     (if state t = TriggerRunning then
        (if Sub now (lastActive t) > SleepDuration t then t\<lparr>state := TriggerSleep\<rparr>
         else t\<lparr>state := TriggerRunning\<rparr>)
      else t)"

subsection \<open>Start and Stop\<close>

text \<open>
  \<^verbatim>\<open>Start\<close>, lines 179 to 198. \<^verbatim>\<open>primitive.NewCeClient\<close> is not among the sources and is a
  parameter. A loop \<^verbatim>\<open>for i := 0; i < n; i++\<close> runs \<open>nat n\<close> times.
\<close>

definition Start ::
  "(string \<Rightarrow> go_error + 'e sink) \<Rightarrow> Time \<Rightarrow> ('e, 'm) Trigger \<Rightarrow>
   ('e, 'm) Trigger \<times> error"
where
  "Start NewCeClient now t =
     (case NewCeClient (Target t) of
        Inl err \<Rightarrow> (t, Some err)
      | Inr client \<Rightarrow>
          (t\<lparr>ceClient := Some client,
             stop := Some (),
             cancelled := False,
             wg := wg t + nat (FilterProcessSize (config t)) + nat (SendProcessSize (config t)) + 1,
             state := TriggerRunning,
             lastActive := now\<rparr>, None))"

text \<open>
  \<^verbatim>\<open>Stop\<close>, lines 200 to 216. \<^verbatim>\<open>t.wg.Wait()\<close> returns when every worker has returned;
  \<open>workers_return\<close> says whether they all do once the context is cancelled (a filter worker
  held up on a full send queue does not).
\<close>

definition Stop ::
  "bool \<Rightarrow> ('e, 'm) Trigger \<Rightarrow> (('e, 'm) Trigger \<times> 'e effect list) outcome"
where
  "Stop workers_return t =
     (if state t = TriggerStopped then Returns (t, [LogInfo ''trigger stop...''])
      else case stop t of
        None \<Rightarrow> Panics NilFuncCall (t, [LogInfo ''trigger stop...''])
      | Some _ \<Rightarrow>
          (let t1 = t\<lparr>cancelled := True\<rparr>
           in if \<not> workers_return \<and> 0 < wg t1 then Blocks (t1, [LogInfo ''trigger stop...''])
              else
                (let t2 = t1\<lparr>wg := 0\<rparr>
                 in case chan_close (eventCh t2) of
                      Inl p \<Rightarrow> Panics p (t2, [LogInfo ''trigger stop...''])
                    | Inr ch1 \<Rightarrow>
                        (case chan_close (sendCh t2) of
                           Inl p \<Rightarrow> Panics p (t2\<lparr>eventCh := ch1\<rparr>, [LogInfo ''trigger stop...''])
                         | Inr ch2 \<Rightarrow>
                             Returns (t2\<lparr>eventCh := ch1, sendCh := ch2, state := TriggerStopped\<rparr>,
                                      [LogInfo ''trigger stop...'', LogInfo ''trigger stopped''])))))"

definition GetState :: "('e, 'm) Trigger \<Rightarrow> TriggerState" where
  "GetState t = state t"

section \<open>The pipeline as interleaved goroutines\<close>

text \<open>
  The callers of \<^verbatim>\<open>EventArrived\<close>, the filter workers and the send workers run
  concurrently. A step of the system is one goroutine going from one point where others
  can interfere to the next: a channel operation, together with the code that follows it
  up to the next channel operation or call of the offset tracker that another goroutine
  can overtake.

  \<^item> \<open>arriving\<close>: the positions still to be registered by callers of \<^verbatim>\<open>EventArrived\<close>
    that have enqueued their event (line 85) and have not yet reached line 86;
  \<^item> \<open>accepted\<close>: the positions of the events enqueued so far, in order;
  \<^item> \<open>filters\<close>, \<open>senders\<close>: where each worker stands;
  \<^item> \<open>trace\<close>: the effects so far, in the order they were made.
\<close>

datatype 'e worker =
    AtSelect
  | AtForward "'e EventRecord"
  | Returned

record ('e, 'm) system =
  trigger :: "('e, 'm) Trigger"
  arriving :: "OffsetInfo list"
  accepted :: "OffsetInfo list"
  filters :: "'e worker list"
  senders :: "'e worker list"
  trace :: "'e effect list"










section \<open>Sequences of lifecycle operations\<close>

text \<open>
  The operations that write the \<^verbatim>\<open>state\<close> field: \<^verbatim>\<open>Start\<close>, \<^verbatim>\<open>Stop\<close> and the ticks of the
  idle watcher. \<open>apply_op\<close> is the trigger an operation leaves behind, however it ends.
\<close>

datatype 'e op =
    OpStart "string \<Rightarrow> go_error + 'e sink" Time
  | OpStop bool
  | OpTick Time

fun apply_op :: "'e op \<Rightarrow> ('e, 'm) Trigger \<Rightarrow> ('e, 'm) Trigger" where
  "apply_op (OpStart NewCeClient now) t = fst (Start NewCeClient now t)"
| "apply_op (OpStop workers_return) t = fst (after (Stop workers_return t))"
| "apply_op (OpTick now) t = sleep_watch_tick now t"

fun apply_ops :: "'e op list \<Rightarrow> ('e, 'm) Trigger \<Rightarrow> ('e, 'm) Trigger" where
  "apply_ops [] t = t"
| "apply_ops (x # xs) t = apply_ops xs (apply_op x t)"

text \<open>An operation that may set the state to \<^verbatim>\<open>running\<close>: a \<^verbatim>\<open>Start\<close> that gets its client.\<close>

fun starts :: "('e, 'm) Trigger \<Rightarrow> 'e op \<Rightarrow> bool" where
  "starts t (OpStart NewCeClient now) = (\<not> isl (NewCeClient (Target t)))"
| "starts t _ = False"

section \<open>Instances\<close>

text \<open>
  Modelled from the spec: \<^verbatim>\<open>Config.initConfig\<close> is not among the sources. ``All fields have
  defaults applied when unset'', unset being Go's zero value; the default values are not
  given and are a parameter.
\<close>

definition initConfig :: "Config \<Rightarrow> Config \<Rightarrow> Config" where
  "initConfig defaults c =
     \<lparr>BufferSize = (if BufferSize c = 0 then BufferSize defaults else BufferSize c),
      FilterProcessSize =
        (if FilterProcessSize c = 0 then FilterProcessSize defaults else FilterProcessSize c),
      SendProcessSize =
        (if SendProcessSize c = 0 then SendProcessSize defaults else SendProcessSize c),
      MaxRetryTimes = (if MaxRetryTimes c = 0 then MaxRetryTimes defaults else MaxRetryTimes c),
      RetryPeriod = (if RetryPeriod c = 0 then RetryPeriod defaults else RetryPeriod c),
      SendTimeOut = (if SendTimeOut c = 0 then SendTimeOut defaults else SendTimeOut c)\<rparr>"

text \<open>Configurations, contexts, sinks and a trigger for the scenarios below.\<close>

definition retries :: "int \<Rightarrow> Config" where
  "retries n =
     \<lparr>BufferSize = 2, FilterProcessSize = 1, SendProcessSize = 1,
      MaxRetryTimes = n, RetryPeriod = 3 * second, SendTimeOut = 5 * second\<rparr>"

definition never_cancelled :: "nat \<Rightarrow> Context" where
  "never_cancelled k = Background"

definition cancelled_from :: "nat \<Rightarrow> nat \<Rightarrow> Context" where
  "cancelled_from j k = (if j \<le> k then Background\<lparr>ctx_err := Some Canceled\<rparr> else Background)"

text \<open>
  A sink that rejects every event, and reports the cancellation when it is called under a
  context that is done; and a sink that acknowledges at the \<open>n\<close>-th attempt.
\<close>

definition rejecting_sink :: "string sink" where
  "rejecting_sink k ctx e = (if ctx_done ctx then Some Canceled else Some ResultNACK)"

definition ack_at :: "nat \<Rightarrow> string sink" where
  "ack_at n k ctx e = (if k = n then None else Some ResultNACK)"

definition drop_listed :: "string list \<Rightarrow> string Filter" where
  "drop_listed rules e = (if e \<in> set rules then FailFilter else PassFilter)"

definition a_subscription :: "string list Subscription" where
  "a_subscription = \<lparr>Subscription_ID = ''sub-1'', Sink = ''http://sink'', Filters = [''noise'']\<rparr>"

definition client_for :: "string \<Rightarrow> go_error + string sink" where
  "client_for target = (if target = [] then Inl (Transport ''no target'') else Inr rejecting_sink)"

definition a_trigger :: "(string, unit) Trigger" where
  "a_trigger =
     \<lparr>ID = ''0001'', SubscriptionID = ''sub-1'', Target = ''http://sink'',
      SleepDuration = 30 * second, state = TriggerCreated, lastActive = 0,
      offsetManager = (), stop = None, cancelled = False,
      eventCh = \<lparr>buf = [], cap = 2, closed = False\<rparr>,
      sendCh = \<lparr>buf = [], cap = 2, closed = False\<rparr>,
      ceClient = None, filter' = drop_listed [''noise''], config = retries 3, wg = 0\<rparr>"

definition an_event :: "string EventRecord" where
  "an_event = \<lparr>Event = ''order'', OffsetInfo = 7\<rparr>"

definition a_noise_event :: "string EventRecord" where
  "a_noise_event = \<lparr>Event = ''noise'', OffsetInfo = 8\<rparr>"



text \<open>
  A trigger that was started at time 0 and found idle by the watcher 31 seconds later,
  and whose owner then raised the sleep threshold (an exported field) to 60 seconds.
\<close>

definition a_sleeping_trigger :: "(string, unit) Trigger" where
  "a_sleeping_trigger =
     (sleep_watch_tick (31 * second) (fst (Start client_for 0 a_trigger)))
       \<lparr>SleepDuration := 60 * second\<rparr>"

section \<open>Properties of the retry loop\<close>

text \<open>
  The loop is unfolded by hand, one case at a time: it stops, the attempt is acknowledged,
  or the attempt is rejected and the loop goes round.
\<close>

declare retry_loop.simps [simp del]

lemma retry_loop_stop:
  "\<not> retryTimes < MaxRetryTimes cfg \<Longrightarrow> retry_loop cfg sink ctx e retryTimes err = ([], err)"
  by (simp add: retry_loop.simps)

lemma retry_loop_ack:
  assumes "retryTimes < MaxRetryTimes cfg"
    and "IsACK (sink (nat (retryTimes + 1)) (WithTimeout (ctx (nat (retryTimes + 1))) (SendTimeOut cfg)) e)"
  shows "retry_loop cfg sink ctx e retryTimes err =
    ([SinkSend (WithTimeout (ctx (nat (retryTimes + 1))) (SendTimeOut cfg)) e
        (sink (nat (retryTimes + 1)) (WithTimeout (ctx (nat (retryTimes + 1))) (SendTimeOut cfg)) e),
      LogDebug ''send ce event success''], None)"
  using assms by (subst retry_loop.simps) (simp add: Let_def)

lemma retry_loop_nack:
  assumes "retryTimes < MaxRetryTimes cfg"
    and "\<not> IsACK (sink (nat (retryTimes + 1)) (WithTimeout (ctx (nat (retryTimes + 1))) (SendTimeOut cfg)) e)"
  shows "retry_loop cfg sink ctx e retryTimes err =
    (SinkSend (WithTimeout (ctx (nat (retryTimes + 1))) (SendTimeOut cfg)) e
        (sink (nat (retryTimes + 1)) (WithTimeout (ctx (nat (retryTimes + 1))) (SendTimeOut cfg)) e) #
     LogDebug ''process event error'' # Sleep (RetryPeriod cfg) #
     fst (retry_loop cfg sink ctx e (retryTimes + 1)
            (sink (nat (retryTimes + 1)) (WithTimeout (ctx (nat (retryTimes + 1))) (SendTimeOut cfg)) e)),
     snd (retry_loop cfg sink ctx e (retryTimes + 1)
            (sink (nat (retryTimes + 1)) (WithTimeout (ctx (nat (retryTimes + 1))) (SendTimeOut cfg)) e)))"
  using assms by (subst retry_loop.simps) (simp add: Let_def case_prod_beta)

lemma retry_loop_well_paused:
  "well_paused (RetryPeriod cfg) (fst (retry_loop cfg sink ctx e retryTimes err))"
proof (induction cfg sink ctx e retryTimes err rule: retry_loop.induct)
  case (1 cfg sink ctx e retryTimes err)
  let ?r = "sink (nat (retryTimes + 1)) (WithTimeout (ctx (nat (retryTimes + 1))) (SendTimeOut cfg)) e"
  consider (stop) "\<not> retryTimes < MaxRetryTimes cfg"
    | (ack) "retryTimes < MaxRetryTimes cfg" "IsACK ?r"
    | (nack) "retryTimes < MaxRetryTimes cfg" "\<not> IsACK ?r"
    by blast
  then show ?case
  proof cases
    case stop
    then show ?thesis by (simp add: retry_loop_stop)
  next
    case ack
    then show ?thesis by (simp add: retry_loop_ack)
  next
    case nack
    from "1.IH" [OF nack(1) refl refl refl nack(2)] nack
    show ?thesis by (simp add: retry_loop_nack)
  qed
qed

lemma retry_loop_sends_le:
  "int (length (sends (fst (retry_loop cfg sink ctx e retryTimes err)))) \<le> max 0 (MaxRetryTimes cfg - retryTimes)"
proof (induction cfg sink ctx e retryTimes err rule: retry_loop.induct)
  case (1 cfg sink ctx e retryTimes err)
  let ?r = "sink (nat (retryTimes + 1)) (WithTimeout (ctx (nat (retryTimes + 1))) (SendTimeOut cfg)) e"
  consider (stop) "\<not> retryTimes < MaxRetryTimes cfg"
    | (ack) "retryTimes < MaxRetryTimes cfg" "IsACK ?r"
    | (nack) "retryTimes < MaxRetryTimes cfg" "\<not> IsACK ?r"
    by blast
  then show ?case
  proof cases
    case stop
    then show ?thesis by (simp add: retry_loop_stop sends_def)
  next
    case ack
    then show ?thesis by (simp add: retry_loop_ack sends_def)
  next
    case nack
    from "1.IH" [OF nack(1) refl refl refl nack(2)] nack
    show ?thesis by (simp add: retry_loop_nack sends_def)
  qed
qed


lemma retry_loop_send_ctxs:
  "0 \<le> retryTimes \<Longrightarrow>
   map fst (sends (fst (retry_loop cfg sink ctx e retryTimes err))) =
   map (\<lambda>i. WithTimeout (ctx (Suc (nat retryTimes) + i)) (SendTimeOut cfg))
     [0 ..< length (sends (fst (retry_loop cfg sink ctx e retryTimes err)))]"
proof (induction cfg sink ctx e retryTimes err rule: retry_loop.induct)
  case (1 cfg sink ctx e retryTimes err)
  let ?r = "sink (nat (retryTimes + 1)) (WithTimeout (ctx (nat (retryTimes + 1))) (SendTimeOut cfg)) e"
  have k: "nat (retryTimes + 1) = Suc (nat retryTimes)" using "1.prems" by simp
  consider (stop) "\<not> retryTimes < MaxRetryTimes cfg"
    | (ack) "retryTimes < MaxRetryTimes cfg" "IsACK ?r"
    | (nack) "retryTimes < MaxRetryTimes cfg" "\<not> IsACK ?r"
    by blast
  then show ?case
  proof cases
    case stop
    then show ?thesis by (simp add: retry_loop_stop sends_def)
  next
    case ack
    then show ?thesis by (simp add: retry_loop_ack sends_def k)
  next
    case nack
    have "0 \<le> retryTimes + 1" using "1.prems" by simp
    from "1.IH" [OF nack(1) refl refl refl nack(2) this] nack
    show ?thesis
      by (simp add: retry_loop_nack sends_def k map_upt_Suc del: upt_Suc)
  qed
qed

lemma not_ack_not_nil: "\<not> IsACK r \<Longrightarrow> r \<noteq> None"
  by (cases r) auto

lemma retry_loop_result:
  "snd (retry_loop cfg sink ctx e retryTimes err) =
     (if sends (fst (retry_loop cfg sink ctx e retryTimes err)) = [] then err
      else if IsACK (snd (snd (last (sends (fst (retry_loop cfg sink ctx e retryTimes err))))))
      then None
      else snd (snd (last (sends (fst (retry_loop cfg sink ctx e retryTimes err))))))"
proof (induction cfg sink ctx e retryTimes err rule: retry_loop.induct)
  case (1 cfg sink ctx e retryTimes err)
  let ?r = "sink (nat (retryTimes + 1)) (WithTimeout (ctx (nat (retryTimes + 1))) (SendTimeOut cfg)) e"
  consider (stop) "\<not> retryTimes < MaxRetryTimes cfg"
    | (ack) "retryTimes < MaxRetryTimes cfg" "IsACK ?r"
    | (nack) "retryTimes < MaxRetryTimes cfg" "\<not> IsACK ?r"
    by blast
  then show ?case
  proof cases
    case stop
    then show ?thesis by (simp add: retry_loop_stop sends_def)
  next
    case ack
    then show ?thesis by (simp add: retry_loop_ack sends_def)
  next
    case nack
    from "1.IH" [OF nack(1) refl refl refl nack(2)] nack
    show ?thesis by (simp add: retry_loop_nack sends_def)
  qed
qed


lemma retry_loop_no_tracker_calls:
  "commits (fst (retry_loop cfg sink ctx e retryTimes err)) = [] \<and>
   receives (fst (retry_loop cfg sink ctx e retryTimes err)) = [] \<and>
   filter is_log_error (fst (retry_loop cfg sink ctx e retryTimes err)) = []"
proof (induction cfg sink ctx e retryTimes err rule: retry_loop.induct)
  case (1 cfg sink ctx e retryTimes err)
  let ?r = "sink (nat (retryTimes + 1)) (WithTimeout (ctx (nat (retryTimes + 1))) (SendTimeOut cfg)) e"
  consider (stop) "\<not> retryTimes < MaxRetryTimes cfg"
    | (ack) "retryTimes < MaxRetryTimes cfg" "IsACK ?r"
    | (nack) "retryTimes < MaxRetryTimes cfg" "\<not> IsACK ?r"
    by blast
  then show ?case
  proof cases
    case stop
    then show ?thesis by (simp add: retry_loop_stop commits_def receives_def)
  next
    case ack
    then show ?thesis by (simp add: retry_loop_ack commits_def receives_def)
  next
    case nack
    from "1.IH" [OF nack(1) refl refl refl nack(2)] nack
    show ?thesis by (simp add: retry_loop_nack commits_def receives_def)
  qed
qed

lemma retry_loop_all_rejected:
  assumes "\<forall>k. nat retryTimes < k \<and> int k \<le> MaxRetryTimes cfg \<longrightarrow>
             \<not> IsACK (sink k (WithTimeout (ctx k) (SendTimeOut cfg)) e)"
    and "0 \<le> retryTimes"
  shows "length (sends (fst (retry_loop cfg sink ctx e retryTimes err))) = nat (MaxRetryTimes cfg - retryTimes) \<and>
         filter is_sleep (fst (retry_loop cfg sink ctx e retryTimes err)) =
           replicate (nat (MaxRetryTimes cfg - retryTimes)) (Sleep (RetryPeriod cfg))"
  using assms
proof (induction cfg sink ctx e retryTimes err rule: retry_loop.induct)
  case (1 cfg sink ctx e retryTimes err)
  let ?r = "sink (nat (retryTimes + 1)) (WithTimeout (ctx (nat (retryTimes + 1))) (SendTimeOut cfg)) e"
  show ?case
  proof (cases "retryTimes < MaxRetryTimes cfg")
    case False
    then show ?thesis by (simp add: retry_loop_stop sends_def)
  next
    case True
    have k: "nat (retryTimes + 1) = Suc (nat retryTimes)" using "1.prems" by simp
    have nack: "\<not> IsACK ?r"
      using "1.prems" True by (simp add: k)
    have rest: "\<forall>k. nat (retryTimes + 1) < k \<and> int k \<le> MaxRetryTimes cfg \<longrightarrow>
             \<not> IsACK (sink k (WithTimeout (ctx k) (SendTimeOut cfg)) e)"
      using "1.prems" by (simp add: k)
    have pos: "0 \<le> retryTimes + 1" using "1.prems" by simp
    have n: "nat (MaxRetryTimes cfg - retryTimes) = Suc (nat (MaxRetryTimes cfg - (retryTimes + 1)))"
      using True by simp
    from "1.IH" [OF True refl refl refl nack rest pos] True nack
    show ?thesis by (simp add: retry_loop_nack sends_def n)
  qed
qed

lemma retry_loop_no_sends_iff:
  "(sends (fst (retry_loop cfg sink ctx e retryTimes err)) = []) = (\<not> retryTimes < MaxRetryTimes cfg)"
proof -
  let ?r = "sink (nat (retryTimes + 1)) (WithTimeout (ctx (nat (retryTimes + 1))) (SendTimeOut cfg)) e"
  consider (stop) "\<not> retryTimes < MaxRetryTimes cfg"
    | (ack) "retryTimes < MaxRetryTimes cfg" "IsACK ?r"
    | (nack) "retryTimes < MaxRetryTimes cfg" "\<not> IsACK ?r"
    by blast
  then show ?thesis
  proof cases
    case stop
    then show ?thesis by (simp add: retry_loop_stop sends_def)
  next
    case ack
    then show ?thesis by (simp add: retry_loop_ack sends_def)
  next
    case nack
    then show ?thesis by (simp add: retry_loop_nack sends_def)
  qed
qed

text \<open>
  C10: if \<^verbatim>\<open>MaxRetryTimes\<close> is zero or negative, the retry loop makes no attempt and
  returns nil, so the send worker logs no failure and still commits the position of the
  event: the commit is all it does.
\<close>

theorem no_retries_no_attempt:
  "MaxRetryTimes cfg \<le> 0 \<Longrightarrow>
   retrySendEvent cfg sink ctx (Event event) = ([], None) \<and>
   send_event cfg sink ctx event = [EventCommit (OffsetInfo event)]"
  by (simp add: retrySendEvent_def send_event_def retry_loop_stop)

theorem no_retries_no_attempt_witness:
  "MaxRetryTimes (retries 0) \<le> 0 \<and> MaxRetryTimes (retries (- 1)) \<le> 0 \<and>
   retrySendEvent (retries 0) rejecting_sink never_cancelled (Event an_event) = ([], None) \<and>
   send_event (retries 0) rejecting_sink never_cancelled an_event = [EventCommit 7] \<and>
   send_event (retries (- 1)) rejecting_sink never_cancelled an_event = [EventCommit 7]"
  using no_retries_no_attempt [of "retries 0" rejecting_sink never_cancelled an_event]
    no_retries_no_attempt [of "retries (- 1)" rejecting_sink never_cancelled an_event]
  by (simp add: retries_def an_event_def)

text \<open>
  C3, as stated, fails on the pause: the loop pauses after every rejected attempt, the
  last one too. With one attempt allowed and a sink that rejects, the trace ends in a
  pause that no attempt follows.
\<close>

theorem retry_pause_after_last_attempt:
  "fst (retrySendEvent (retries 1) rejecting_sink never_cancelled ''order'') =
     [SinkSend (WithTimeout Background (5 * second)) ''order'' (Some ResultNACK),
      LogDebug ''process event error'', Sleep (3 * second)] \<and>
   \<not> no_pause_after_last (fst (retrySendEvent (retries 1) rejecting_sink never_cancelled ''order''))"
  by code_simp

text \<open>
  C3, amended: the retry loop calls the sink client at most \<^verbatim>\<open>MaxRetryTimes\<close> times, the
  \<open>k\<close>-th call under the caller's context with the timeout \<^verbatim>\<open>SendTimeOut\<close> put on it; a
  pause of \<^verbatim>\<open>RetryPeriod\<close> follows every rejected attempt, the last one included, and an
  acknowledged attempt ends the loop at once; no attempt is made exactly when
  \<^verbatim>\<open>MaxRetryTimes\<close> is not positive; and the loop returns nil exactly when its last attempt
  was acknowledged or it made none.
\<close>

theorem retry_send_attempts:
  "int (length (sends (fst (retrySendEvent cfg sink ctx e)))) \<le> max 0 (MaxRetryTimes cfg) \<and>
   map fst (sends (fst (retrySendEvent cfg sink ctx e))) =
     map (\<lambda>i. WithTimeout (ctx (Suc i)) (SendTimeOut cfg))
       [0 ..< length (sends (fst (retrySendEvent cfg sink ctx e)))] \<and>
   well_paused (RetryPeriod cfg) (fst (retrySendEvent cfg sink ctx e)) \<and>
   (sends (fst (retrySendEvent cfg sink ctx e)) = []) = (MaxRetryTimes cfg \<le> 0) \<and>
   (snd (retrySendEvent cfg sink ctx e) = None) =
     (MaxRetryTimes cfg \<le> 0 \<or> IsACK (snd (snd (last (sends (fst (retrySendEvent cfg sink ctx e)))))))"
proof -
  let ?tr = "fst (retrySendEvent cfg sink ctx e)"
  have 1: "int (length (sends ?tr)) \<le> max 0 (MaxRetryTimes cfg)"
    using retry_loop_sends_le [of cfg sink ctx e 0 None] by (simp add: retrySendEvent_def)
  have 2: "map fst (sends ?tr) =
     map (\<lambda>i. WithTimeout (ctx (Suc i)) (SendTimeOut cfg)) [0 ..< length (sends ?tr)]"
    using retry_loop_send_ctxs [of 0 cfg sink ctx e None] by (simp add: retrySendEvent_def)
  have 3: "well_paused (RetryPeriod cfg) ?tr"
    by (simp add: retrySendEvent_def retry_loop_well_paused)
  have 4: "(sends ?tr = []) = (MaxRetryTimes cfg \<le> 0)"
    using retry_loop_no_sends_iff [of cfg sink ctx e 0 None] by (auto simp: retrySendEvent_def)
  have 5: "(snd (retrySendEvent cfg sink ctx e) = None) =
     (MaxRetryTimes cfg \<le> 0 \<or> IsACK (snd (snd (last (sends ?tr)))))"
    using retry_loop_result [of cfg sink ctx e 0 None] 4 not_ack_not_nil
    by (auto simp: retrySendEvent_def)
  from 1 2 3 4 5 show ?thesis by blast
qed


theorem retry_send_attempts_witness:
  "length (sends (fst (retrySendEvent (retries 3) (ack_at 2) never_cancelled ''order''))) = 2 \<and>
   map fst (sends (fst (retrySendEvent (retries 3) (ack_at 2) never_cancelled ''order''))) =
     [WithTimeout Background (5 * second), WithTimeout Background (5 * second)] \<and>
   filter is_sleep (fst (retrySendEvent (retries 3) (ack_at 2) never_cancelled ''order'')) =
     [Sleep (3 * second)] \<and>
   well_paused (3 * second) (fst (retrySendEvent (retries 3) (ack_at 2) never_cancelled ''order'')) \<and>
   snd (retrySendEvent (retries 3) (ack_at 2) never_cancelled ''order'') = None"
proof -
  let ?R = "retrySendEvent (retries 3) (ack_at 2) never_cancelled ''order''"
  have a: "length (sends (fst ?R)) = 2" "filter is_sleep (fst ?R) = [Sleep (3 * second)]"
    "IsACK (snd (snd (last (sends (fst ?R)))))"
    by code_simp+
  have c: "RetryPeriod (retries 3) = 3 * second" "SendTimeOut (retries 3) = 5 * second"
    "never_cancelled (Suc 0) = Background" "never_cancelled (Suc (Suc 0)) = Background"
    by (simp_all add: retries_def never_cancelled_def)
  from retry_send_attempts [of "retries 3" "ack_at 2" never_cancelled "''order''"] a c
  show ?thesis by (simp add: numeral_2_eq_2)
qed

section \<open>Properties of the send worker\<close>

lemma sends_append: "sends (xs @ ys) = sends xs @ sends ys"
  by (simp add: sends_def)

lemma commits_append: "commits (xs @ ys) = commits xs @ commits ys"
  by (simp add: commits_def)


lemma send_event_shape:
  "send_event cfg sink ctx event =
     fst (retrySendEvent cfg sink ctx (Event event)) @
     (if snd (retrySendEvent cfg sink ctx (Event event)) \<noteq> None
      then [LogError ''send event to sink failed''] else []) @
     [EventCommit (OffsetInfo event)]"
  by (simp add: send_event_def case_prod_beta)

lemma retry_result_nil_iff:
  "(snd (retrySendEvent cfg sink ctx e) = None) =
     (sends (fst (retrySendEvent cfg sink ctx e)) = [] \<or>
      IsACK (snd (snd (last (sends (fst (retrySendEvent cfg sink ctx e)))))))"
  using retry_loop_result [of cfg sink ctx e 0 None] not_ack_not_nil
  by (auto simp: retrySendEvent_def)

lemma retry_loop_all_rejected_result:
  assumes "\<forall>k. nat retryTimes < k \<and> int k \<le> MaxRetryTimes cfg \<longrightarrow>
             \<not> IsACK (sink k (WithTimeout (ctx k) (SendTimeOut cfg)) e)"
    and "0 \<le> retryTimes"
  shows "(snd (retry_loop cfg sink ctx e retryTimes err) = None) =
         (\<not> retryTimes < MaxRetryTimes cfg \<and> err = None)"
  using assms
proof (induction cfg sink ctx e retryTimes err rule: retry_loop.induct)
  case (1 cfg sink ctx e retryTimes err)
  let ?r = "sink (nat (retryTimes + 1)) (WithTimeout (ctx (nat (retryTimes + 1))) (SendTimeOut cfg)) e"
  show ?case
  proof (cases "retryTimes < MaxRetryTimes cfg")
    case False
    then show ?thesis by (simp add: retry_loop_stop)
  next
    case True
    have k: "nat (retryTimes + 1) = Suc (nat retryTimes)" using "1.prems" by simp
    have nack: "\<not> IsACK ?r"
      using "1.prems" True by (simp add: k)
    have rest: "\<forall>k. nat (retryTimes + 1) < k \<and> int k \<le> MaxRetryTimes cfg \<longrightarrow>
             \<not> IsACK (sink k (WithTimeout (ctx k) (SendTimeOut cfg)) e)"
      using "1.prems" by (simp add: k)
    have pos: "0 \<le> retryTimes + 1" using "1.prems" by simp
    from "1.IH" [OF True refl refl refl nack rest pos] True nack not_ack_not_nil [OF nack]
    show ?thesis by (simp add: retry_loop_nack)
  qed
qed

text \<open>
  C2: for every event a send worker has taken from the send queue, the position of the
  event is committed once the retry loop has finished, whichever way it ended: the commit
  is the last thing the worker does for the event and the only commit it makes. When
  attempts were made and the last one was rejected (so all were), the failure is logged
  before the commit; otherwise it is not. The worker hands no error to anyone: all it
  yields is its effects.
\<close>

theorem send_event_commits_after_retries:
  "commits (send_event cfg sink ctx event) = [OffsetInfo event] \<and>
   last (send_event cfg sink ctx event) = EventCommit (OffsetInfo event) \<and>
   sends (send_event cfg sink ctx event) = sends (fst (retrySendEvent cfg sink ctx (Event event))) \<and>
   (filter is_log_error (send_event cfg sink ctx event) \<noteq> []) =
     (sends (send_event cfg sink ctx event) \<noteq> [] \<and>
      \<not> IsACK (snd (snd (last (sends (send_event cfg sink ctx event))))))"
proof -
  let ?R = "retrySendEvent cfg sink ctx (Event event)"
  have quiet: "commits (fst ?R) = []" "filter is_log_error (fst ?R) = []"
    using retry_loop_no_tracker_calls [of cfg sink ctx "Event event" 0 None]
    by (simp_all add: retrySendEvent_def)
  have 1: "commits (send_event cfg sink ctx event) = [OffsetInfo event]"
    using quiet by (simp add: send_event_shape commits_append) (simp add: commits_def)
  have 2: "last (send_event cfg sink ctx event) = EventCommit (OffsetInfo event)"
    by (simp add: send_event_shape)
  have 3: "sends (send_event cfg sink ctx event) = sends (fst ?R)"
    by (simp add: send_event_shape sends_append) (simp add: sends_def)
  have 4: "(filter is_log_error (send_event cfg sink ctx event) \<noteq> []) = (snd ?R \<noteq> None)"
    using quiet by (simp add: send_event_shape)
  show ?thesis
    unfolding 4 unfolding 3 using 1 2 retry_result_nil_iff [of cfg sink ctx "Event event"]
    by (simp add: 3)
qed

theorem send_event_commits_after_retries_witness:
  "length (sends (send_event (retries 3) rejecting_sink never_cancelled an_event)) = 3 \<and>
   filter is_acked (send_event (retries 3) rejecting_sink never_cancelled an_event) = [] \<and>
   filter is_log_error (send_event (retries 3) rejecting_sink never_cancelled an_event) \<noteq> [] \<and>
   commits (send_event (retries 3) rejecting_sink never_cancelled an_event) = [7] \<and>
   last (send_event (retries 3) rejecting_sink never_cancelled an_event) = EventCommit 7"
proof -
  have a: "length (sends (send_event (retries 3) rejecting_sink never_cancelled an_event)) = 3"
    "filter is_acked (send_event (retries 3) rejecting_sink never_cancelled an_event) = []"
    "\<not> IsACK (snd (snd (last (sends (send_event (retries 3) rejecting_sink never_cancelled an_event)))))"
    "OffsetInfo an_event = 7"
    by code_simp+
  from a(1) have b: "sends (send_event (retries 3) rejecting_sink never_cancelled an_event) \<noteq> []"
    by auto
  from send_event_commits_after_retries [of "retries 3" rejecting_sink never_cancelled an_event] a b
  show ?thesis by simp
qed

text \<open>
  C6, as stated, fails: the retry loop never looks at the caller's context. With three
  attempts allowed and the context cancelled between the first attempt and the second,
  the loop still makes the second and the third attempt, both under a context that is
  done, and pauses after each.
\<close>

theorem retry_goes_on_after_cancellation:
  "ctx_done (cancelled_from 2 2) \<and> ctx_done (cancelled_from 2 3) \<and>
   sends (fst (retrySendEvent (retries 3) rejecting_sink (cancelled_from 2) ''order'')) =
     [(WithTimeout (cancelled_from 2 1) (5 * second), ''order'', Some ResultNACK),
      (WithTimeout (cancelled_from 2 2) (5 * second), ''order'', Some Canceled),
      (WithTimeout (cancelled_from 2 3) (5 * second), ''order'', Some Canceled)] \<and>
   filter is_sleep (fst (retrySendEvent (retries 3) rejecting_sink (cancelled_from 2) ''order'')) =
     [Sleep (3 * second), Sleep (3 * second), Sleep (3 * second)]"
  by code_simp

text \<open>
  C6, amended: a cancellation of the caller's context does not end the retry loop.
  Whatever the state of the context at each attempt, as long as the sink client rejects
  (as it does under a cancelled context) the loop makes all \<^verbatim>\<open>MaxRetryTimes\<close> attempts,
  pauses for \<^verbatim>\<open>RetryPeriod\<close> after each of them, and does not return nil unless
  \<^verbatim>\<open>MaxRetryTimes\<close> is not positive.
\<close>

theorem retry_not_ended_by_cancellation:
  assumes "\<forall>k. 0 < k \<and> int k \<le> MaxRetryTimes cfg \<longrightarrow>
             \<not> IsACK (sink k (WithTimeout (ctx k) (SendTimeOut cfg)) e)"
  shows "length (sends (fst (retrySendEvent cfg sink ctx e))) = nat (MaxRetryTimes cfg) \<and>
         filter is_sleep (fst (retrySendEvent cfg sink ctx e)) =
           replicate (nat (MaxRetryTimes cfg)) (Sleep (RetryPeriod cfg)) \<and>
         (snd (retrySendEvent cfg sink ctx e) = None) = (MaxRetryTimes cfg \<le> 0)"
proof -
  let ?tr = "fst (retrySendEvent cfg sink ctx e)"
  have a: "length (sends ?tr) = nat (MaxRetryTimes cfg) \<and>
           filter is_sleep ?tr = replicate (nat (MaxRetryTimes cfg)) (Sleep (RetryPeriod cfg))"
    using retry_loop_all_rejected [of 0 cfg sink ctx e None] assms
    by (simp add: retrySendEvent_def)
  have b: "(snd (retrySendEvent cfg sink ctx e) = None) = (MaxRetryTimes cfg \<le> 0)"
    using retry_loop_all_rejected_result [of 0 cfg sink ctx e None] assms
    by (auto simp: retrySendEvent_def)
  from a b show ?thesis by simp
qed

theorem retry_not_ended_by_cancellation_witness:
  "ctx_done (cancelled_from 2 2) \<and>
   length (sends (fst (retrySendEvent (retries 3) rejecting_sink (cancelled_from 2) ''order''))) = 3 \<and>
   filter is_sleep (fst (retrySendEvent (retries 3) rejecting_sink (cancelled_from 2) ''order'')) =
     [Sleep (3 * second), Sleep (3 * second), Sleep (3 * second)] \<and>
   snd (retrySendEvent (retries 3) rejecting_sink (cancelled_from 2) ''order'') \<noteq> None"
proof -
  have h: "\<forall>k. 0 < k \<and> int k \<le> MaxRetryTimes (retries 3) \<longrightarrow>
      \<not> IsACK (rejecting_sink k (WithTimeout (cancelled_from 2 k) (SendTimeOut (retries 3))) ''order'')"
    by (simp add: rejecting_sink_def)
  have c: "ctx_done (cancelled_from 2 2)"
    by (simp add: ctx_done_def cancelled_from_def)
  have m: "MaxRetryTimes (retries 3) = 3" "RetryPeriod (retries 3) = 3 * second"
    by (simp_all add: retries_def)
  from retry_not_ended_by_cancellation [of "retries 3" rejecting_sink "cancelled_from 2" "''order''"] h c m
  show ?thesis
    by (simp add: numeral_3_eq_3)
qed


section \<open>Properties of construction, ingestion and the filter stage\<close>

text \<open>
  C9: \<^verbatim>\<open>NewTrigger\<close> takes a nil configuration: it puts the empty configuration in its
  place, has the defaults applied to it, and returns a trigger in the state \<^verbatim>\<open>created\<close>
  whose two queues are empty and have the defaulted capacity. The defaulting is not among
  the sources; all that is asked of it is that the capacity it yields is not negative
  (\<^verbatim>\<open>make\<close> panics on a negative size).
\<close>

theorem NewTrigger_nil_config:
  assumes "0 \<le> BufferSize (init emptyConfig)"
  shows "\<exists>t. NewTrigger init uuid GetFilter None (Some sub) om = Inr t \<and>
           state t = TriggerCreated \<and> config t = init emptyConfig \<and>
           eventCh t = \<lparr>buf = [], cap = nat (BufferSize (init emptyConfig)), closed = False\<rparr> \<and>
           sendCh t = \<lparr>buf = [], cap = nat (BufferSize (init emptyConfig)), closed = False\<rparr>"
  using assms by (simp add: NewTrigger_def make_chan_def Let_def)

theorem NewTrigger_nil_config_witness:
  "\<exists>t. NewTrigger (initConfig (retries 3)) ''0001'' drop_listed None (Some a_subscription) () = Inr t \<and>
         state t = TriggerCreated \<and> config t = retries 3 \<and>
         cap (eventCh t) = 2 \<and> cap (sendCh t) = 2 \<and> t = a_trigger"
proof -
  have i: "initConfig (retries 3) emptyConfig = retries 3"
    by (simp add: initConfig_def retries_def emptyConfig_def)
  have b: "0 \<le> BufferSize (initConfig (retries 3) emptyConfig)" "BufferSize (retries 3) = 2"
    unfolding i by (simp_all add: retries_def)
  from NewTrigger_nil_config [of "initConfig (retries 3)" "''0001''" drop_listed a_subscription "()", OF b(1)]
  obtain t where t: "NewTrigger (initConfig (retries 3)) ''0001'' drop_listed None (Some a_subscription) () = Inr t"
    "state t = TriggerCreated" "config t = initConfig (retries 3) emptyConfig"
    "eventCh t = \<lparr>buf = [], cap = nat (BufferSize (initConfig (retries 3) emptyConfig)), closed = False\<rparr>"
    "sendCh t = \<lparr>buf = [], cap = nat (BufferSize (initConfig (retries 3) emptyConfig)), closed = False\<rparr>"
    by blast
  have "t = a_trigger"
    using t(1) by (simp add: NewTrigger_def make_chan_def Let_def i b a_trigger_def a_subscription_def)
  with t i b show ?thesis by simp
qed




text \<open>
  C4: when the filter fails an event taken from the intake queue, the filter worker
  commits its position and does nothing else: the trigger, its send queue included, is
  as before. When the filter passes the event, the worker puts the event, as it is, at the
  back of the send queue, and waits for room while the queue is full. Neither way does the
  worker call the sink client.
\<close>

theorem process_event_commits_or_forwards:
  "(FilterEvent (filter' t) (Event event) = FailFilter \<longrightarrow>
      process_event event t = Returns (t, [EventCommit (OffsetInfo event)])) \<and>
   (FilterEvent (filter' t) (Event event) = PassFilter \<and> \<not> closed (sendCh t) \<longrightarrow>
      process_event event t =
        (if length (buf (sendCh t)) < cap (sendCh t)
         then Returns (t\<lparr>sendCh := (sendCh t)\<lparr>buf := buf (sendCh t) @ [event]\<rparr>\<rparr>, [])
         else Blocks (t, []))) \<and>
   sends (snd (after (process_event event t))) = []"
  by (auto simp: process_event_def send_ready_def chan_send_def sends_def split: sum.splits)

theorem process_event_commits_or_forwards_witness:
  "process_event a_noise_event a_trigger = Returns (a_trigger, [EventCommit 8]) \<and>
   process_event an_event a_trigger =
     Returns (a_trigger\<lparr>sendCh := \<lparr>buf = [an_event], cap = 2, closed = False\<rparr>\<rparr>, [])"
proof -
  have f: "FilterEvent (filter' a_trigger) (Event a_noise_event) = FailFilter"
    "FilterEvent (filter' a_trigger) (Event an_event) = PassFilter"
    by (simp_all add: FilterEvent_def a_trigger_def drop_listed_def a_noise_event_def an_event_def)
  have c: "\<not> closed (sendCh a_trigger)" "length (buf (sendCh a_trigger)) < cap (sendCh a_trigger)"
    "sendCh a_trigger = \<lparr>buf = [], cap = 2, closed = False\<rparr>" "OffsetInfo a_noise_event = 8"
    by (simp_all add: a_trigger_def a_noise_event_def)
  from process_event_commits_or_forwards [of a_trigger a_noise_event]
    process_event_commits_or_forwards [of a_trigger an_event] f c
  show ?thesis by simp
qed

section \<open>Properties of the lifecycle\<close>

lemma sleep_watch_tick_state:
  "state (sleep_watch_tick now t) =
     (if state t = TriggerRunning \<and> Sub now (lastActive t) > SleepDuration t
      then TriggerSleep else state t)"
  by (simp add: sleep_watch_tick_def)

text \<open>
  C7: the code does not do what the claim says for a trigger that is asleep. The tick
  acts only when the state is \<^verbatim>\<open>running\<close>; its \<^verbatim>\<open>else\<close> branch, which sets \<^verbatim>\<open>running\<close>, is
  under that very test and never wakes a sleeping trigger. Here the trigger is asleep, the
  elapsed time (32 seconds) is within the threshold (60 seconds), and the tick leaves it
  asleep.
\<close>

theorem sleep_watch_tick_does_not_wake:
  "state a_sleeping_trigger = TriggerSleep \<and>
   Sub (32 * second) (lastActive a_sleeping_trigger) \<le> SleepDuration a_sleeping_trigger \<and>
   state (sleep_watch_tick (32 * second) a_sleeping_trigger) = TriggerSleep"
  by (simp add: a_sleeping_trigger_def sleep_watch_tick_def Start_def client_for_def a_trigger_def
      Sub_def maxDuration_def minDuration_def second_def Let_def)

lemma apply_op_Target: "Target (apply_op x t) = Target t"
  by (cases x)
    (auto simp: Start_def Stop_def sleep_watch_tick_def chan_close_def Let_def
      split: sum.splits option.splits)

lemma apply_op_stopped:
  "state t = TriggerStopped \<Longrightarrow> \<not> starts t x \<Longrightarrow> state (apply_op x t) = TriggerStopped"
  by (cases x) (auto simp: Start_def Stop_def sleep_watch_tick_def split: sum.splits)

lemma starts_apply_op: "starts (apply_op x t) y = starts t y"
  by (cases y) (simp_all add: apply_op_Target)

text \<open>
  C8, as stated, fails: \<^verbatim>\<open>Start\<close> does not look at the state. A trigger that was started
  and stopped is \<^verbatim>\<open>running\<close> again after a second \<^verbatim>\<open>Start\<close>; and \<^verbatim>\<open>Stop\<close>, which only tests
  for \<^verbatim>\<open>stopped\<close>, takes a destroyed trigger to \<^verbatim>\<open>stopped\<close>.
\<close>

theorem stopped_trigger_restarts:
  "state (apply_ops [OpStart client_for 0, OpStop True] a_trigger) = TriggerStopped \<and>
   state (apply_ops [OpStart client_for 0, OpStop True, OpStart client_for 1] a_trigger) =
     TriggerRunning \<and>
   state (apply_op (OpStop True) (a_trigger\<lparr>state := TriggerDestroyed, stop := Some ()\<rparr>)) =
     TriggerStopped"
  by (simp add: Start_def Stop_def client_for_def a_trigger_def chan_close_def Let_def)

text \<open>
  C8, amended: once the state is \<^verbatim>\<open>stopped\<close>, no \<^verbatim>\<open>Stop\<close>, no tick of the watcher and no
  \<^verbatim>\<open>Start\<close> that fails to get its sink client changes it; a \<^verbatim>\<open>Start\<close> that gets its client
  sets the state to \<^verbatim>\<open>running\<close> whatever it was, and one that does not leaves it as it
  was; a tick of the watcher neither leaves nor enters \<^verbatim>\<open>destroyed\<close>.
\<close>

theorem stopped_until_restarted:
  "(state t = TriggerStopped \<and> (\<forall>x \<in> set ops. \<not> starts t x) \<longrightarrow>
      state (apply_ops ops t) = TriggerStopped) \<and>
   state (fst (Start NewCeClient now t)) =
     (if isl (NewCeClient (Target t)) then state t else TriggerRunning) \<and>
   (state (sleep_watch_tick now t) = TriggerDestroyed) = (state t = TriggerDestroyed)"
proof -
  have "state t = TriggerStopped \<Longrightarrow> \<forall>x \<in> set ops. \<not> starts t x \<Longrightarrow>
        state (apply_ops ops t) = TriggerStopped"
  proof (induction ops arbitrary: t)
    case Nil
    then show ?case by simp
  next
    case (Cons x xs)
    have s: "state (apply_op x t) = TriggerStopped"
      using Cons.prems by (simp add: apply_op_stopped)
    have "\<forall>y \<in> set xs. \<not> starts (apply_op x t) y"
      using Cons.prems by (simp add: starts_apply_op)
    with Cons.IH [OF s] show ?case by simp
  qed
  moreover have "state (fst (Start NewCeClient now t)) =
     (if isl (NewCeClient (Target t)) then state t else TriggerRunning)"
    by (simp add: Start_def split: sum.splits)
  moreover have "(state (sleep_watch_tick now t) = TriggerDestroyed) = (state t = TriggerDestroyed)"
    by (simp add: sleep_watch_tick_def)
  ultimately show ?thesis by blast
qed

theorem stopped_until_restarted_witness:
  "state (apply_ops [OpStart client_for 0, OpStop True] a_trigger) = TriggerStopped \<and>
   state (apply_ops [OpStop True, OpTick (40 * second), OpStart client_for 41, OpStop False]
            ((apply_ops [OpStart client_for 0, OpStop True] a_trigger)\<lparr>Target := []\<rparr>)) =
     TriggerStopped"
proof -
  let ?t = "(apply_ops [OpStart client_for 0, OpStop True] a_trigger)\<lparr>Target := []\<rparr>"
  have s: "state ?t = TriggerStopped"
    "state (apply_ops [OpStart client_for 0, OpStop True] a_trigger) = TriggerStopped"
    by (simp_all add: Start_def Stop_def client_for_def a_trigger_def chan_close_def Let_def)
  have n: "\<forall>x \<in> set [OpStop True, OpTick (40 * second), OpStart client_for 41, OpStop False].
             \<not> starts ?t x"
    by (simp add: client_for_def)
  from stopped_until_restarted [of ?t "[OpStop True, OpTick (40 * second), OpStart client_for 41, OpStop False]"]
    s n show ?thesis by blast
qed


section \<open>Properties of the pipeline\<close>
















lemma returned_update: "list_all (\<lambda>w. w = Returned) ws \<Longrightarrow> list_all (\<lambda>w. w = Returned) (ws[i := Returned])"
  by (induction ws arbitrary: i) (auto split: nat.splits)

lemma all_returned_nth: "list_all (\<lambda>w. w = Returned) ws \<Longrightarrow> i < length ws \<Longrightarrow> ws ! i = Returned"
  by (simp add: list_all_length)









end
